theory Spec2Isabelle
  imports Main
begin

section \<open>Strings and the two regular expressions of \<^verbatim>\<open>index.mjs\<close>\<close>

text \<open>
  A JavaScript string is modelled as a \<^typ>\<open>string\<close>: one \<^typ>\<open>char\<close> per code unit, for
  the code units below 256. The line feed is \<open>CHR 0x0A\<close>.
\<close>

definition nl :: char where
  "nl = CHR 0x0A"

text \<open>
  \<^verbatim>\<open>\w\<close> of a JavaScript regular expression: an ASCII letter, a digit or the underscore.
\<close>

definition is_word :: "char \<Rightarrow> bool" where
  "is_word c = (let n = of_char c :: nat in
     (48 \<le> n \<and> n \<le> 57) \<or> (65 \<le> n \<and> n \<le> 90) \<or> n = 95 \<or> (97 \<le> n \<and> n \<le> 122))"

text \<open>
  \<^verbatim>\<open>\s\<close>, which is also what \<^verbatim>\<open>trim\<close> removes: tab, line feed, vertical tab, form feed,
  carriage return, space and the no-break space (the white space and line terminators
  of JavaScript that lie below 256).
\<close>

definition is_space :: "char \<Rightarrow> bool" where
  "is_space c = (let n = of_char c :: nat in (9 \<le> n \<and> n \<le> 13) \<or> n = 32 \<or> n = 160)"

text \<open>
  \<^verbatim>\<open>s.replace(/\n$/, '')\<close>. The expression has no flag, so \<^verbatim>\<open>$\<close> matches at the end of
  the input only and the first match alone is replaced. The search tries each start
  position from the left: a match at a position is a line feed that is the last code
  unit of the string.
\<close>

fun replace_nl_end :: "string \<Rightarrow> string" where
  "replace_nl_end [] = []"
| "replace_nl_end (c # cs) = (if c = nl \<and> cs = [] then [] else c # replace_nl_end cs)"

section \<open>The class \<^verbatim>\<open>ProcessOutput\<close>\<close>

text \<open>
  The five private fields. \<^verbatim>\<open>#code\<close> is what the \<^verbatim>\<open>exit\<close> event of the child passed:
  an integer, or \<^verbatim>\<open>null\<close> (\<open>None\<close>). \<^verbatim>\<open>#__from\<close> is \<open>call_from\<close> (an Isabelle name cannot
  start with an underscore, and \<open>from\<close> is a keyword).
\<close>

record ProcessOutput =
  code :: "int option"
  stdout :: string
  stderr :: string
  combined :: string
  call_from :: string

text \<open>The constructor: it stores its five arguments.\<close>

definition new_ProcessOutput ::
  "int option \<Rightarrow> string \<Rightarrow> string \<Rightarrow> string \<Rightarrow> string \<Rightarrow> ProcessOutput" where
  "new_ProcessOutput c out err comb fr =
     \<lparr>code = c, stdout = out, stderr = err, combined = comb, call_from = fr\<rparr>"

section \<open>Interpolation values and \<^verbatim>\<open>substitute\<close>\<close>

text \<open>
  An interpolated value is told apart by \<^verbatim>\<open>arg instanceof ProcessOutput\<close>. The values
  that are not a \<^verbatim>\<open>ProcessOutput\<close> are modelled at the type string (numbers are IEEE
  doubles and reach the command through the string coercion of \<^verbatim>\<open>+\<close>, which is not
  modelled).
\<close>

datatype arg = Raw string | Output ProcessOutput

fun substitute :: "arg \<Rightarrow> string" where
  "substitute (Output p) = replace_nl_end (stdout p)"
| "substitute (Raw s) = s"

section \<open>What the module takes from its host\<close>

text \<open>
  The imported functions the module calls, as fields of one record.
  \<open>which_sync h cmd\<close> is \<^verbatim>\<open>which.sync(cmd, {nothrow: true})\<close>: the path found, or
  \<^verbatim>\<open>null\<close> (\<open>None\<close>). \<open>shq\<close> is the quoting function of the package \<^verbatim>\<open>shq\<close>,
  \<open>greenBright\<close> is \<^verbatim>\<open>chalk.greenBright\<close>, \<open>existsSync\<close> is the one of \<^verbatim>\<open>fs\<close>.
\<close>

record host =
  which_sync :: "string \<Rightarrow> string option"
  shq :: "string \<Rightarrow> string"
  greenBright :: "string \<Rightarrow> string"
  existsSync :: "string \<Rightarrow> bool"

section \<open>The call site: \<^verbatim>\<open>(new Error().stack.split('at ')[2]).trim()\<close>\<close>

text \<open>
  \<^verbatim>\<open>s.split('at ')\<close>: the pieces of \<open>s\<close> between the occurrences of the separator, found
  from the left without overlap. The empty string splits into one empty piece.
\<close>

fun split_at :: "string \<Rightarrow> string list" where
  "split_at [] = [] # []"
| "split_at (c # cs) =
     (if take 3 (c # cs) = ''at '' then [] # split_at (drop 2 cs)
      else (case split_at cs of [] \<Rightarrow> [c] # [] | x # xs \<Rightarrow> (c # x) # xs))"

definition trim :: "string \<Rightarrow> string" where
  "trim s = rev (dropWhile is_space (rev (dropWhile is_space s)))"

text \<open>
  The stack text is the host's. Index 2 of the pieces is \<^verbatim>\<open>undefined\<close> when there are
  fewer than three, and \<^verbatim>\<open>undefined.trim()\<close> throws a TypeError: the result \<open>None\<close>.
\<close>

definition call_site :: "string \<Rightarrow> string option" where
  "call_site stack =
     (let segs = split_at stack in if 2 < length segs then Some (trim (segs ! 2)) else None)"

section \<open>\<^verbatim>\<open>colorize\<close>\<close>

text \<open>
  \<^verbatim>\<open>cmd.replace(/^\w+\s/, substr => chalk.greenBright(substr))\<close>. The match can only
  start at position 0: the longest run of word characters, which must not be empty,
  and one white-space character after it (no word character is white space, so the
  run never gives a character back).
\<close>

definition colorize :: "host \<Rightarrow> string \<Rightarrow> string" where
  "colorize h cmd =
     (let w = takeWhile is_word cmd; r = dropWhile is_word cmd
      in case r of
           [] \<Rightarrow> cmd
         | c # rest \<Rightarrow> if w \<noteq> [] \<and> is_space c then greenBright h (w @ [c]) @ rest else cmd)"

section \<open>\<^verbatim>\<open>whichSyncFallback\<close>\<close>

text \<open>
  The first result that is not \<^verbatim>\<open>null\<close>; the function returns nothing
  (\<^verbatim>\<open>undefined\<close>, here \<open>None\<close>) when the loop ends.
\<close>

fun whichSyncFallback :: "host \<Rightarrow> string list \<Rightarrow> string option" where
  "whichSyncFallback h [] = None"
| "whichSyncFallback h (cmd # cmds) =
     (case which_sync h cmd of
        Some result \<Rightarrow> Some result
      | None \<Rightarrow> whichSyncFallback h cmds)"

section \<open>The properties of \<^verbatim>\<open>$\<close> and the effects of the module\<close>

text \<open>The options object passed to \<^verbatim>\<open>exec\<close>; \<open>None\<close> is a property that is not set.\<close>

record spawn_options =
  windowsHide :: bool
  options_shell :: "string option"
  options_cwd :: "string option"

text \<open>
  What the module does to the outside, in the order it does it: a line on the console,
  a chunk written to a stream of the parent process, a child started by \<^verbatim>\<open>exec\<close> with
  its command string and options.
\<close>

datatype effect =
    ConsoleLog string
  | ConsoleWarn string
  | ConsoleError string
  | StdoutWrite string
  | StderrWrite string
  | Exec string spawn_options

text \<open>
  The process-wide state: the properties of the function object \<^verbatim>\<open>$\<close> and the effects so
  far. \<open>None\<close> for \<open>cwd\<close> and \<open>shell\<close> is \<^verbatim>\<open>undefined\<close>. The quoting function is any
  function from strings to strings: it returns for every string and has no effect.
\<close>

record state =
  verbose :: bool
  cwd :: "string option"
  shell :: "string option"
  prefix :: string
  quote :: "string \<Rightarrow> string"
  trace :: "effect list"

text \<open>The truth value of what \<^verbatim>\<open>which.sync\<close> or \<^verbatim>\<open>whichSyncFallback\<close> returned.\<close>

definition truthy :: "string option \<Rightarrow> bool" where
  "truthy r = (case r of None \<Rightarrow> False | Some s \<Rightarrow> s \<noteq> [])"

text \<open>
  The statements at the top level of the module (lines 80 to 95), run once when the
  module is loaded. The assignment in each condition stays when the condition fails,
  so the second one overwrites the \<^verbatim>\<open>null\<close> of the first.
\<close>

definition module_init :: "host \<Rightarrow> state" where
  "module_init h =
     (let s0 = \<lparr>verbose = True, cwd = None, shell = None, prefix = [],
                quote = (\<lambda>s. s), trace = []\<rparr>;
          bash = which_sync h ''bash''
      in if truthy bash
         then s0\<lparr>shell := bash, prefix := ''set -euo pipefail;'', quote := shq h\<rparr>
         else
           let fallback = whichSyncFallback h [''pwsh'', ''powershell'']
           in if truthy fallback
              then s0\<lparr>shell := fallback, trace :=
                     [ConsoleWarn ''Using powershell: no built-in quoting available yet.'']\<rparr>
              else s0\<lparr>shell := fallback, trace :=
                     [ConsoleWarn
                        ''Unknown shell. Falling back to nodejs default. No quoting available.'']\<rparr>)"

section \<open>Control flow\<close>

datatype error = TypeError

text \<open>
  A call returns a value, throws, or ends the process through \<^verbatim>\<open>process.exit\<close>; each
  with the state it leaves.
\<close>

datatype 'a outcome = Returned 'a state | Threw error state | Exited int state

text \<open>The statement after a call runs only when the call returned.\<close>

fun and_then :: "'a outcome \<Rightarrow> ('a \<Rightarrow> state \<Rightarrow> 'b outcome) \<Rightarrow> 'b outcome" where
  "and_then (Returned x st) k = k x st"
| "and_then (Threw e st) k = Threw e st"
| "and_then (Exited n st) k = Exited n st"

section \<open>The command builder of \<^verbatim>\<open>$\<close>\<close>

text \<open>\<^verbatim>\<open>pieces[i]\<close>: \<^verbatim>\<open>undefined\<close> (\<open>None\<close>) out of range.\<close>

definition piece :: "string list \<Rightarrow> nat \<Rightarrow> string option" where
  "piece pieces i = (if i < length pieces then Some (pieces ! i) else None)"

text \<open>The coercion of \<^verbatim>\<open>+\<close> with a string on the other side.\<close>

definition to_string :: "string option \<Rightarrow> string" where
  "to_string v = (case v of None \<Rightarrow> ''undefined'' | Some s \<Rightarrow> s)"

text \<open>
  \<^verbatim>\<open>while (i < args.length) cmd += $.quote(substitute(args[i])) + pieces[++i]\<close>
\<close>

function build_loop ::
  "(string \<Rightarrow> string) \<Rightarrow> string list \<Rightarrow> arg list \<Rightarrow> string option \<Rightarrow> nat \<Rightarrow> string option" where
  "build_loop q pieces args cmd i =
     (if i < length args
      then build_loop q pieces args
             (Some (to_string cmd @ (q (substitute (args ! i)) @ to_string (piece pieces (Suc i)))))
             (Suc i)
      else cmd)"
  by pat_completeness auto
termination
  by (relation "measure (\<lambda>(q, pieces, args, cmd, i). length args - i)") auto

text \<open>\<^verbatim>\<open>let cmd = pieces[0], i = 0\<close> and the loop.\<close>

definition build_cmd :: "(string \<Rightarrow> string) \<Rightarrow> string list \<Rightarrow> arg list \<Rightarrow> string option" where
  "build_cmd q pieces args = build_loop q pieces args (piece pieces 0) 0"

section \<open>The process runner of \<^verbatim>\<open>$\<close>\<close>

text \<open>
  The variables the three listeners of one call share, and the promise: \<open>None\<close> while it
  is pending.
\<close>

datatype settlement = Resolved ProcessOutput | Rejected ProcessOutput

record invocation =
  from_var :: string
  stdout_var :: string
  stderr_var :: string
  combined_var :: string
  promise :: "settlement option"

text \<open>
  \<^verbatim>\<open>if ($.verbose) console.log('$', colorize(cmd))\<close>. \<^verbatim>\<open>colorize(undefined)\<close> throws a
  TypeError (\<^verbatim>\<open>undefined.replace\<close>).
\<close>

definition echo :: "host \<Rightarrow> string option \<Rightarrow> state \<Rightarrow> error + state" where
  "echo h cmd st =
     (if verbose st
      then (case cmd of
              None \<Rightarrow> Inl TypeError
            | Some c \<Rightarrow> Inr (st\<lparr>trace := trace st @ [ConsoleLog (''$ '' @ colorize h c)]\<rparr>))
      else Inr st)"

text \<open>
  The body of the promise, up to the listeners (lines 54 to 61); it runs inside the call
  of \<^verbatim>\<open>$\<close>. An \<^verbatim>\<open>undefined\<close> command is spawned as the text \<^verbatim>\<open>undefined\<close>.
\<close>

definition executor :: "string \<Rightarrow> string option \<Rightarrow> state \<Rightarrow> invocation outcome" where
  "executor fr cmd st =
     (let options = \<lparr>windowsHide = True, options_shell = shell st, options_cwd = cwd st\<rparr>
      in Returned
           \<lparr>from_var = fr, stdout_var = [], stderr_var = [], combined_var = [], promise = None\<rparr>
           (st\<lparr>trace := trace st @ [Exec (prefix st @ to_string cmd) options]\<rparr>))"

text \<open>
  \<^verbatim>\<open>$\<close> (lines 46 to 78): the call site, the command, the echo, the promise.
\<close>

definition dollar :: "host \<Rightarrow> string \<Rightarrow> string list \<Rightarrow> arg list \<Rightarrow> state \<Rightarrow> invocation outcome" where
  "dollar h stack pieces args st =
     (case call_site stack of
        None \<Rightarrow> Threw TypeError st
      | Some fr \<Rightarrow>
          (let cmd = build_cmd (quote st) pieces args
           in (case echo h cmd st of
                 Inl e \<Rightarrow> Threw e st
               | Inr st1 \<Rightarrow> executor fr cmd st1)))"

text \<open>
  What the child sends to the listeners: a chunk on one of its two streams, or its exit
  with the code (\<open>None\<close> is \<^verbatim>\<open>null\<close>).
\<close>

datatype stream = Stdout | Stderr

datatype event = Data stream string | Exit "int option"

text \<open>
  The three listeners (lines 62 to 76). A promise that is settled stays as it is.
\<close>

fun on_event :: "event \<Rightarrow> invocation \<times> state \<Rightarrow> invocation \<times> state" where
  "on_event (Data Stdout d) (iv, st) =
     (iv\<lparr>stdout_var := stdout_var iv @ d, combined_var := combined_var iv @ d\<rparr>,
      if verbose st then st\<lparr>trace := trace st @ [StdoutWrite d]\<rparr> else st)"
| "on_event (Data Stderr d) (iv, st) =
     (iv\<lparr>stderr_var := stderr_var iv @ d, combined_var := combined_var iv @ d\<rparr>,
      if verbose st then st\<lparr>trace := trace st @ [StderrWrite d]\<rparr> else st)"
| "on_event (Exit c) (iv, st) =
     (case promise iv of
        Some r \<Rightarrow> (iv, st)
      | None \<Rightarrow>
          (iv\<lparr>promise := Some ((if c = Some 0 then Resolved else Rejected)
                 (new_ProcessOutput c (stdout_var iv) (stderr_var iv) (combined_var iv)
                    (from_var iv)))\<rparr>,
           st))"

text \<open>The events of one child, in the order they arrive.\<close>

fun on_events :: "event list \<Rightarrow> invocation \<times> state \<Rightarrow> invocation \<times> state" where
  "on_events [] c = c"
| "on_events (e # es) c = on_events es (on_event e c)"

section \<open>\<^verbatim>\<open>cd\<close>\<close>

definition cd :: "host \<Rightarrow> string \<Rightarrow> string \<Rightarrow> state \<Rightarrow> unit outcome" where
  "cd h stack path st =
     (let st1 = (if verbose st
                 then st\<lparr>trace := trace st @ [ConsoleLog (''$ '' @ colorize h (''cd '' @ path))]\<rparr>
                 else st)
      in if \<not> existsSync h path
         then (case call_site stack of
                 None \<Rightarrow> Threw TypeError st1
               | Some fr \<Rightarrow>
                   Exited 1
                     (st1\<lparr>trace := trace st1 @
                        [ConsoleError (''cd: '' @ path @ '': No such directory''),
                         ConsoleError (''  at '' @ fr)]\<rparr>))
         else Returned () (st1\<lparr>cwd := Some path\<rparr>))"

section \<open>The members of \<^verbatim>\<open>ProcessOutput\<close>\<close>

text \<open>
  The class body declares \<^verbatim>\<open>toString\<close> and four getters, and no setter. A member is
  called on an object and gives a value and the object as the call leaves it.
\<close>

datatype member = ToString | Get_stdout | Get_stderr | Get_exitCode | Get_from

datatype jsval = JString string | JCode "int option"

fun member_call :: "member \<Rightarrow> ProcessOutput \<Rightarrow> jsval \<times> ProcessOutput" where
  "member_call ToString this = (JString (combined this), this)"
| "member_call Get_stdout this = (JString (stdout this), this)"
| "member_call Get_stderr this = (JString (stderr this), this)"
| "member_call Get_exitCode this = (JCode (code this), this)"
| "member_call Get_from this = (JString (call_from this), this)"

section \<open>An instance of \<^verbatim>\<open>ProcessOutput\<close> in the hands of a caller\<close>













section \<open>Vocabulary of the specification\<close>

text \<open>
  The interleaving as the specification writes it, for the comparison with
  \<open>build_cmd\<close>: \<^verbatim>\<open>segments[0] + quoted[0] + segments[1] + quoted[1] + ... + segments[n]\<close>,
  over the segments and the quoted values. It ends with the segment that has no value
  after it.
\<close>

fun interleaving :: "string list \<Rightarrow> string list \<Rightarrow> string" where
  "interleaving [] quoted = []"
| "interleaving (s # segments) [] = s"
| "interleaving (s # segments) (v # quoted) = s @ v @ interleaving segments quoted"

text \<open>
  The chunks of one child in arrival order, each with the stream it came on; the events
  they are; the chunks of one stream; the write that mirrors a chunk to the parent.
\<close>

definition data_events :: "(stream \<times> string) list \<Rightarrow> event list" where
  "data_events ds = map (\<lambda>(s, d). Data s d) ds"

definition chunks_of :: "stream \<Rightarrow> (stream \<times> string) list \<Rightarrow> string list" where
  "chunks_of s ds = map snd (filter (\<lambda>(s', d). s' = s) ds)"

fun mirror :: "stream \<times> string \<Rightarrow> effect" where
  "mirror (Stdout, d) = StdoutWrite d"
| "mirror (Stderr, d) = StderrWrite d"

text \<open>The echo of a command, as a list of effects: empty when the flag is off.\<close>

definition echo_of :: "host \<Rightarrow> state \<Rightarrow> string \<Rightarrow> effect list" where
  "echo_of h st cmd = (if verbose st then [ConsoleLog (''$ '' @ colorize h cmd)] else [])"

text \<open>The \<^verbatim>\<open>ProcessOutput\<close> a promise was settled with, and the state an outcome leaves.\<close>

fun settled_with :: "settlement \<Rightarrow> ProcessOutput" where
  "settled_with (Resolved p) = p"
| "settled_with (Rejected p) = p"

fun state_of :: "'a outcome \<Rightarrow> state" where
  "state_of (Returned x st) = st"
| "state_of (Threw e st) = st"
| "state_of (Exited n st) = st"

section \<open>A concrete host and call site\<close>

text \<open>
  A host where \<^verbatim>\<open>bash\<close> is found and one where no interpreter is; the quoting function of
  the first puts its argument between single quotes. The stack text has the frame of the
  function that was called and the frame of its caller.
\<close>

definition ex_host :: host where
  "ex_host =
     \<lparr>which_sync = (\<lambda>c. if c = ''bash'' then Some ''/bin/bash'' else None),
        shq = (\<lambda>s. [CHR 0x27] @ s @ [CHR 0x27]),
        greenBright = (\<lambda>s. s),
        existsSync = (\<lambda>p. p = ''/tmp'')\<rparr>"

definition ex_bare_host :: host where
  "ex_bare_host = ex_host\<lparr>which_sync := (\<lambda>c. None)\<rparr>"

definition ex_stack :: string where
  "ex_stack = ''Error'' @ [nl] @ ''    at f (index.mjs:47:17)'' @ [nl]
     @ ''    at main (script.mjs:3:1)'' @ [nl]"

text \<open>
  The call \<^verbatim>\<open>$`exit 3`\<close> in the state the module starts with on \<open>ex_host\<close>: the variables
  of the call and the state it leaves.
\<close>

definition ex_invocation :: invocation where
  "ex_invocation =
     \<lparr>from_var = ''main (script.mjs:3:1)'', stdout_var = [], stderr_var = [],
        combined_var = [], promise = None\<rparr>"

definition ex_state :: state where
  "ex_state =
     (module_init ex_host)\<lparr>trace :=
        [ConsoleLog ''$ exit 3'',
         Exec ''set -euo pipefail;exit 3''
           \<lparr>windowsHide = True, options_shell = Some ''/bin/bash'', options_cwd = None\<rparr>]\<rparr>"

declare build_loop.simps [simp del]

section \<open>The concrete call\<close>

lemma ex_call_site: "call_site ex_stack = Some ''main (script.mjs:3:1)''"
  by (simp add: call_site_def ex_stack_def trim_def is_space_def nl_def)

lemma ex_module_init:
  "module_init ex_host =
     \<lparr>verbose = True, cwd = None, shell = Some ''/bin/bash'', prefix = ''set -euo pipefail;'',
        quote = shq ex_host, trace = []\<rparr>"
  by (simp add: module_init_def ex_host_def truthy_def)

lemma ex_dollar:
  "dollar ex_host ex_stack [''exit 3''] [] (module_init ex_host) =
     Returned ex_invocation ex_state"
  by (simp add: dollar_def ex_call_site build_cmd_def build_loop.simps piece_def echo_def
      executor_def to_string_def ex_module_init colorize_def is_word_def is_space_def
      ex_invocation_def ex_state_def)
    (simp add: ex_host_def)

section \<open>Properties of \<^verbatim>\<open>substitute\<close>\<close>

lemma replace_nl_end_snoc_nl: "replace_nl_end (s @ [nl]) = s"
  by (induction s) auto

lemma replace_nl_end_other: "s = [] \<or> last s \<noteq> nl \<Longrightarrow> replace_nl_end s = s"
  by (induction s) (auto split: if_splits)

lemma replace_nl_end_butlast:
  "replace_nl_end s = (if s \<noteq> [] \<and> last s = nl then butlast s else s)"
proof (cases "s \<noteq> [] \<and> last s = nl")
  case True
  then have "s = butlast s @ [nl]"
    by (metis append_butlast_last_id)
  then have "replace_nl_end s = butlast s"
    by (metis replace_nl_end_snoc_nl)
  with True show ?thesis by simp
next
  case False
  then have "replace_nl_end s = s"
    by (intro replace_nl_end_other) blast
  with False show ?thesis by auto
qed

text \<open>
  C3. A value that is a \<^verbatim>\<open>ProcessOutput\<close> is substituted by its stdout without its last
  code unit when that is a line feed, and by its stdout unchanged otherwise; so of
  \<open>k + 1\<close> trailing line feeds \<open>k\<close> remain. Any other value is substituted as it is.
\<close>

theorem substitute_strips_one_newline:
  "substitute (Output p) =
     (if stdout p \<noteq> [] \<and> last (stdout p) = nl then butlast (stdout p) else stdout p)
   \<and> substitute (Output (p\<lparr>stdout := s @ replicate (Suc k) nl\<rparr>)) = s @ replicate k nl
   \<and> substitute (Raw r) = r"
proof -
  have "s @ replicate (Suc k) nl = (s @ replicate k nl) @ [nl]"
    by (simp add: replicate_append_same)
  then have "replace_nl_end (s @ replicate (Suc k) nl) = s @ replicate k nl"
    by (simp only: replace_nl_end_snoc_nl)
  then show ?thesis
    by (simp add: replace_nl_end_butlast)
qed

theorem substitute_strips_one_newline_witness:
  "substitute (Output \<lparr>code = Some 0, stdout = ''42'' @ [nl, nl], stderr = [],
       combined = ''42'' @ [nl, nl], call_from = ''main''\<rparr>) = ''42'' @ [nl]
   \<and> substitute (Output \<lparr>code = Some 0, stdout = ''42'', stderr = [],
       combined = ''42'', call_from = ''main''\<rparr>) = ''42''
   \<and> substitute (Raw (''a b'' @ [nl])) = ''a b'' @ [nl]"
  using substitute_strips_one_newline
    [of "\<lparr>code = Some 0, stdout = ''42'' @ [nl, nl], stderr = [],
       combined = ''42'' @ [nl, nl], call_from = ''main''\<rparr>" "''42''" 1 "''a b'' @ [nl]"]
    substitute_strips_one_newline
    [of "\<lparr>code = Some 0, stdout = ''42'', stderr = [],
       combined = ''42'', call_from = ''main''\<rparr>" "[]" 0 "[]"]
  by (simp add: nl_def)

section \<open>The command builder\<close>

lemma build_loop_inv:
  "length ps = length as \<Longrightarrow> length p0s = Suc (length a0s) \<Longrightarrow>
   build_loop q (p0s @ ps) (a0s @ as) (Some acc) (length a0s) =
     Some (acc @ concat (map2 (\<lambda>a p. q (substitute a) @ p) as ps))"
proof (induction as arbitrary: ps a0s p0s acc)
  case Nil
  then show ?case by (simp add: build_loop.simps)
next
  case (Cons a as)
  then obtain p ps' where ps: "ps = p # ps'" by (cases ps) auto
  from Cons.prems ps have len: "length ps' = length as" by simp
  have l2: "length (p0s @ [p]) = Suc (length (a0s @ [a]))" using Cons.prems by simp
  have pc: "piece (p0s @ p # ps') (Suc (length a0s)) = Some p"
    using Cons.prems by (simp add: piece_def nth_append)
  have step: "build_loop q (p0s @ p # ps') (a0s @ a # as) (Some acc) (length a0s) =
    build_loop q (p0s @ p # ps') (a0s @ a # as)
      (Some (acc @ (q (substitute a) @ p))) (Suc (length a0s))"
    by (subst build_loop.simps) (simp add: pc to_string_def)
  have "build_loop q ((p0s @ [p]) @ ps') ((a0s @ [a]) @ as)
      (Some (acc @ (q (substitute a) @ p))) (length (a0s @ [a])) =
     Some ((acc @ (q (substitute a) @ p)) @ concat (map2 (\<lambda>a p. q (substitute a) @ p) as ps'))"
    by (rule Cons.IH [OF len l2])
  with step ps show ?case by simp
qed

lemma interleaving_map2:
  "length ps = length vs \<Longrightarrow>
   interleaving (p # ps) vs = p @ concat (map2 (\<lambda>v s. v @ s) vs ps)"
  by (induction ps vs arbitrary: p rule: list_induct2) auto

lemma build_cmd_interleaving:
  assumes "length pieces = Suc (length args)"
  shows "build_cmd q pieces args = Some (interleaving pieces (map (\<lambda>a. q (substitute a)) args))"
proof -
  from assms obtain p ps where ps: "pieces = p # ps" and len: "length ps = length args"
    by (cases pieces) auto
  have "build_loop q ([p] @ ps) ([] @ args) (Some p) (length ([] :: arg list)) =
     Some (p @ concat (map2 (\<lambda>a p. q (substitute a) @ p) args ps))"
    by (rule build_loop_inv) (simp_all add: len)
  moreover have "interleaving (p # ps) (map (\<lambda>a. q (substitute a)) args) =
     p @ concat (map2 (\<lambda>v s. v @ s) (map (\<lambda>a. q (substitute a)) args) ps)"
    by (rule interleaving_map2) (simp add: len)
  moreover have "map2 (\<lambda>v s. v @ s) (map (\<lambda>a. q (substitute a)) args) ps =
      map2 (\<lambda>a p. q (substitute a) @ p) args ps"
    by (simp add: zip_map1 case_prod_unfold)
  ultimately show ?thesis
    by (simp add: build_cmd_def ps piece_def)
qed


text \<open>
  C2. For a template with one more segment than values, the command \<^verbatim>\<open>$\<close> builds is the
  interleaving of the segments, as they are, with the values, each substituted and then
  passed through the quoting function of the state; that string is what \<^verbatim>\<open>$\<close> echoes and,
  after the prefix, what it spawns.
\<close>

theorem build_is_exact_interleaving:
  assumes "length pieces = Suc (length args)"
  shows "build_cmd (quote st) pieces args =
           Some (interleaving pieces (map (\<lambda>a. quote st (substitute a)) args))
       \<and> (dollar h stack pieces args st = Returned iv st1 \<longrightarrow>
            trace st1 = trace st
              @ echo_of h st (interleaving pieces (map (\<lambda>a. quote st (substitute a)) args))
              @ [Exec (prefix st @ interleaving pieces (map (\<lambda>a. quote st (substitute a)) args))
                   \<lparr>windowsHide = True, options_shell = shell st, options_cwd = cwd st\<rparr>])"
proof -
  have b: "build_cmd (quote st) pieces args =
      Some (interleaving pieces (map (\<lambda>a. quote st (substitute a)) args))"
    using assms by (rule build_cmd_interleaving)
  have "trace st1 = trace st
      @ echo_of h st (interleaving pieces (map (\<lambda>a. quote st (substitute a)) args))
      @ [Exec (prefix st @ interleaving pieces (map (\<lambda>a. quote st (substitute a)) args))
           \<lparr>windowsHide = True, options_shell = shell st, options_cwd = cwd st\<rparr>]"
    if "dollar h stack pieces args st = Returned iv st1"
    using that
    by (auto simp: b dollar_def echo_def executor_def echo_of_def to_string_def
        split: option.splits if_splits)
  with b show ?thesis by blast
qed

theorem build_is_exact_interleaving_witness:
  "length [''echo '', '' '', '' end''] = Suc (length [Raw ''a b'', Output \<lparr>code = Some 0,
      stdout = ''42'' @ [nl], stderr = [], combined = ''42'' @ [nl], call_from = ''main''\<rparr>])
   \<and> dollar ex_host ex_stack [''echo '', '' '', '' end''] [Raw ''a b'', Output \<lparr>code = Some 0,
      stdout = ''42'' @ [nl], stderr = [], combined = ''42'' @ [nl], call_from = ''main''\<rparr>]
      \<lparr>verbose = False, cwd = None, shell = None, prefix = ''set -e;'',
         quote = (\<lambda>s. ''<'' @ s @ ''>''), trace = []\<rparr> =
     Returned ex_invocation
      \<lparr>verbose = False, cwd = None, shell = None, prefix = ''set -e;'',
         quote = (\<lambda>s. ''<'' @ s @ ''>''),
         trace = [Exec ''set -e;echo <a b> <42> end''
           \<lparr>windowsHide = True, options_shell = None, options_cwd = None\<rparr>]\<rparr>
   \<and> build_cmd (\<lambda>s. ''<'' @ s @ ''>'') [''echo '', '' '', '' end''] [Raw ''a b'',
      Output \<lparr>code = Some 0, stdout = ''42'' @ [nl], stderr = [], combined = ''42'' @ [nl],
        call_from = ''main''\<rparr>]
     = Some ''echo <a b> <42> end''"
proof -
  let ?pieces = "[''echo '', '' '', '' end'']"
  let ?args = "[Raw ''a b'', Output \<lparr>code = Some 0, stdout = ''42'' @ [nl], stderr = [],
      combined = ''42'' @ [nl], call_from = ''main''\<rparr>]"
  let ?st = "\<lparr>verbose = False, cwd = None, shell = None, prefix = ''set -e;'',
      quote = (\<lambda>s. ''<'' @ s @ ''>''), trace = []\<rparr>"
  have len: "length ?pieces = Suc (length ?args)"
    by simp
  note t = build_is_exact_interleaving [OF len, of ?st ex_host ex_stack]
  from t have b: "build_cmd (\<lambda>s. ''<'' @ s @ ''>'') ?pieces ?args = Some ''echo <a b> <42> end''"
    by (simp add: nl_def)
  have "dollar ex_host ex_stack ?pieces ?args ?st =
     Returned ex_invocation
      \<lparr>verbose = False, cwd = None, shell = None, prefix = ''set -e;'',
         quote = (\<lambda>s. ''<'' @ s @ ''>''),
         trace = [Exec ''set -e;echo <a b> <42> end''
           \<lparr>windowsHide = True, options_shell = None, options_cwd = None\<rparr>]\<rparr>"
    using b
    by (simp add: dollar_def ex_call_site echo_def executor_def to_string_def
        ex_invocation_def)
  with len b show ?thesis
    by simp
qed

section \<open>The listeners of one call\<close>

lemma on_events_append: "on_events (es @ fs) c = on_events fs (on_events es c)"
  by (induction es arbitrary: c) auto

lemma on_event_data:
  "on_event (Data s d) (iv, st) =
     (iv\<lparr>stdout_var := stdout_var iv @ concat (chunks_of Stdout [(s, d)]),
         stderr_var := stderr_var iv @ concat (chunks_of Stderr [(s, d)]),
         combined_var := combined_var iv @ d\<rparr>,
      st\<lparr>trace := trace st @ (if verbose st then [mirror (s, d)] else [])\<rparr>)"
  by (cases s) (simp_all add: chunks_of_def)

lemma on_events_data:
  "on_events (data_events ds) (iv, st) =
     (iv\<lparr>stdout_var := stdout_var iv @ concat (chunks_of Stdout ds),
         stderr_var := stderr_var iv @ concat (chunks_of Stderr ds),
         combined_var := combined_var iv @ concat (map snd ds)\<rparr>,
      st\<lparr>trace := trace st @ (if verbose st then map mirror ds else [])\<rparr>)"
proof (induction ds arbitrary: iv st)
  case Nil
  then show ?case by (simp add: data_events_def chunks_of_def)
next
  case (Cons x ds)
  obtain s d where x: "x = (s, d)" by (cases x)
  have "on_events (data_events (x # ds)) (iv, st) =
      on_events (data_events ds) (on_event (Data s d) (iv, st))"
    by (simp add: data_events_def x)
  then show ?case
    by (cases s) (simp_all add: Cons.IH x chunks_of_def)
qed

lemma on_events_settled:
  "promise iv = Some r \<Longrightarrow> promise (fst (on_events es (iv, st))) = Some r"
proof (induction es arbitrary: iv st)
  case Nil
  then show ?case by simp
next
  case (Cons e es)
  obtain iv' st' where step: "on_event e (iv, st) = (iv', st')"
    by (cases "on_event e (iv, st)")
  have "promise iv' = Some r"
  proof (cases e)
    case (Data s d)
    with step Cons.prems show ?thesis by (cases s) auto
  next
    case (Exit c)
    with step Cons.prems show ?thesis by auto
  qed
  then have "promise (fst (on_events es (iv', st'))) = Some r"
    by (rule Cons.IH)
  with step show ?case by simp
qed

lemma run_settles:
  assumes "promise iv = None"
  shows "promise (fst (on_events (data_events ds @ Exit c # later) (iv, st))) =
     Some ((if c = Some 0 then Resolved else Rejected)
       \<lparr>code = c, stdout = stdout_var iv @ concat (chunks_of Stdout ds),
          stderr = stderr_var iv @ concat (chunks_of Stderr ds),
          combined = combined_var iv @ concat (map snd ds), call_from = from_var iv\<rparr>)"
proof -
  obtain iv1 st1 where d: "on_events (data_events ds) (iv, st) = (iv1, st1)"
    by (cases "on_events (data_events ds) (iv, st)")
  then have iv1: "iv1 = iv\<lparr>stdout_var := stdout_var iv @ concat (chunks_of Stdout ds),
         stderr_var := stderr_var iv @ concat (chunks_of Stderr ds),
         combined_var := combined_var iv @ concat (map snd ds)\<rparr>"
    by (simp add: on_events_data)
  obtain iv2 st2 where e: "on_event (Exit c) (iv1, st1) = (iv2, st2)"
    by (cases "on_event (Exit c) (iv1, st1)")
  have p2: "promise iv2 = Some ((if c = Some 0 then Resolved else Rejected)
       \<lparr>code = c, stdout = stdout_var iv @ concat (chunks_of Stdout ds),
          stderr = stderr_var iv @ concat (chunks_of Stderr ds),
          combined = combined_var iv @ concat (map snd ds), call_from = from_var iv\<rparr>)"
    using e assms by (auto simp: iv1 new_ProcessOutput_def)
  have "on_events (data_events ds @ Exit c # later) (iv, st) = on_events later (iv2, st2)"
    by (simp only: on_events_append d on_events.simps e)
  with p2 show ?thesis
    by (simp add: on_events_settled)
qed

lemma dollar_Returned:
  assumes "dollar h stack pieces args st = Returned iv st1"
  shows "stdout_var iv = [] \<and> stderr_var iv = [] \<and> combined_var iv = [] \<and> promise iv = None
     \<and> call_site stack = Some (from_var iv)
     \<and> verbose st1 = verbose st \<and> cwd st1 = cwd st \<and> shell st1 = shell st
     \<and> prefix st1 = prefix st \<and> quote st1 = quote st"
  using assms
  by (auto simp: dollar_def echo_def executor_def Let_def
      split: option.splits sum.splits if_splits)

section \<open>What no function of the module changes\<close>

lemma on_events_fields:
  "verbose (snd (on_events es c)) = verbose (snd c) \<and> cwd (snd (on_events es c)) = cwd (snd c)
   \<and> shell (snd (on_events es c)) = shell (snd c) \<and> prefix (snd (on_events es c)) = prefix (snd c)
   \<and> quote (snd (on_events es c)) = quote (snd c)"
proof (induction es arbitrary: c)
  case Nil
  then show ?case by simp
next
  case (Cons e es)
  obtain iv st where c: "c = (iv, st)" by (cases c)
  have "verbose (snd (on_event e c)) = verbose (snd c) \<and> cwd (snd (on_event e c)) = cwd (snd c)
   \<and> shell (snd (on_event e c)) = shell (snd c) \<and> prefix (snd (on_event e c)) = prefix (snd c)
   \<and> quote (snd (on_event e c)) = quote (snd c)"
  proof (cases e)
    case (Data s d)
    then show ?thesis by (cases s) (simp_all add: c)
  next
    case (Exit x)
    then show ?thesis by (simp add: c split: option.splits)
  qed
  with Cons.IH [of "on_event e c"] show ?case by simp
qed

lemma dollar_fields:
  "verbose (state_of (dollar h stack pieces args st)) = verbose st
   \<and> cwd (state_of (dollar h stack pieces args st)) = cwd st
   \<and> shell (state_of (dollar h stack pieces args st)) = shell st
   \<and> prefix (state_of (dollar h stack pieces args st)) = prefix st
   \<and> quote (state_of (dollar h stack pieces args st)) = quote st"
  by (simp add: dollar_def echo_def executor_def Let_def split: option.splits sum.splits)

lemma cd_fields:
  "verbose (state_of (cd h stack path st)) = verbose st
   \<and> shell (state_of (cd h stack path st)) = shell st
   \<and> prefix (state_of (cd h stack path st)) = prefix st
   \<and> quote (state_of (cd h stack path st)) = quote st"
  by (simp add: cd_def Let_def split: option.splits)

section \<open>Settling the promise\<close>

text \<open>
  C1. A call of \<^verbatim>\<open>$\<close> returns a pending promise. When the child, after any chunks, exits
  with the code 0 the promise is resolved, and when it exits with another integer code it
  is rejected; both with a \<^verbatim>\<open>ProcessOutput\<close> of that code, the chunks received on each
  stream, all chunks in arrival order and the call site. Later events do not change it.
\<close>

theorem exit_code_settles_promise:
  assumes "dollar h stack pieces args st = Returned iv st1"
  shows "promise iv = None
    \<and> promise (fst (on_events (data_events ds @ Exit (Some n) # later) (iv, st1))) =
       Some ((if n = 0 then Resolved else Rejected)
         \<lparr>code = Some n, stdout = concat (chunks_of Stdout ds),
            stderr = concat (chunks_of Stderr ds), combined = concat (map snd ds),
            call_from = from_var iv\<rparr>)"
proof -
  from assms have init: "stdout_var iv = [] \<and> stderr_var iv = [] \<and> combined_var iv = []
      \<and> promise iv = None"
    by (simp add: dollar_Returned)
  then have "promise iv = None" by simp
  then have "promise (fst (on_events (data_events ds @ Exit (Some n) # later) (iv, st1))) =
     Some ((if Some n = Some 0 then Resolved else Rejected)
       \<lparr>code = Some n, stdout = stdout_var iv @ concat (chunks_of Stdout ds),
          stderr = stderr_var iv @ concat (chunks_of Stderr ds),
          combined = combined_var iv @ concat (map snd ds), call_from = from_var iv\<rparr>)"
    by (rule run_settles)
  with init show ?thesis by simp
qed

theorem exit_code_settles_promise_witness:
  "dollar ex_host ex_stack [''exit 3''] [] (module_init ex_host) = Returned ex_invocation ex_state
   \<and> promise (fst (on_events (data_events [(Stdout, ''a''), (Stderr, ''b'')] @ Exit (Some 3) # [])
       (ex_invocation, ex_state))) =
     Some (Rejected \<lparr>code = Some 3, stdout = ''a'', stderr = ''b'', combined = ''ab'',
        call_from = ''main (script.mjs:3:1)''\<rparr>)
   \<and> promise (fst (on_events (data_events [(Stdout, ''a''), (Stderr, ''b'')] @ Exit (Some 0) # [])
       (ex_invocation, ex_state))) =
     Some (Resolved \<lparr>code = Some 0, stdout = ''a'', stderr = ''b'', combined = ''ab'',
        call_from = ''main (script.mjs:3:1)''\<rparr>)"
  using exit_code_settles_promise [OF ex_dollar, of "[(Stdout, ''a''), (Stderr, ''b'')]" 3 "[]"]
    exit_code_settles_promise [OF ex_dollar, of "[(Stdout, ''a''), (Stderr, ''b'')]" 0 "[]"]
  by (simp add: chunks_of_def ex_dollar ex_invocation_def)

section \<open>The captured streams\<close>

text \<open>
  C7. From a call of \<^verbatim>\<open>$\<close>, after the chunks \<open>ds\<close> have arrived the stdout variable holds
  the stdout chunks in their order, the stderr variable the stderr chunks, and the combined
  variable all of them in arrival order; one more chunk extends the combined variable at
  its end. The \<^verbatim>\<open>ProcessOutput\<close> built at the exit has those three strings, whatever
  arrives later.
\<close>

theorem combined_preserves_arrival_order:
  assumes "dollar h stack pieces args st = Returned iv st1"
  shows "stdout_var (fst (on_events (data_events ds) (iv, st1))) = concat (chunks_of Stdout ds)
    \<and> stderr_var (fst (on_events (data_events ds) (iv, st1))) = concat (chunks_of Stderr ds)
    \<and> combined_var (fst (on_events (data_events ds) (iv, st1))) = concat (map snd ds)
    \<and> combined_var (fst (on_events (data_events (ds @ [(s, d)])) (iv, st1))) =
        combined_var (fst (on_events (data_events ds) (iv, st1))) @ d
    \<and> map_option settled_with (promise (fst (on_events (data_events ds @ Exit c # later) (iv, st1)))) =
        Some \<lparr>code = c, stdout = concat (chunks_of Stdout ds),
          stderr = concat (chunks_of Stderr ds), combined = concat (map snd ds),
          call_from = from_var iv\<rparr>"
proof -
  from assms have init: "stdout_var iv = [] \<and> stderr_var iv = [] \<and> combined_var iv = []
      \<and> promise iv = None"
    by (simp add: dollar_Returned)
  then have "promise iv = None" by simp
  then have "promise (fst (on_events (data_events ds @ Exit c # later) (iv, st1))) =
     Some ((if c = Some 0 then Resolved else Rejected)
       \<lparr>code = c, stdout = stdout_var iv @ concat (chunks_of Stdout ds),
          stderr = stderr_var iv @ concat (chunks_of Stderr ds),
          combined = combined_var iv @ concat (map snd ds), call_from = from_var iv\<rparr>)"
    by (rule run_settles)
  with init show ?thesis
    by (simp add: on_events_data)
qed

theorem combined_preserves_arrival_order_witness:
  "dollar ex_host ex_stack [''exit 3''] [] (module_init ex_host) = Returned ex_invocation ex_state
   \<and> combined_var (fst (on_events
        (data_events [(Stdout, ''out1 ''), (Stderr, ''err1 ''), (Stdout, ''out2 '')])
        (ex_invocation, ex_state))) = ''out1 err1 out2 ''
   \<and> stdout_var (fst (on_events
        (data_events [(Stdout, ''out1 ''), (Stderr, ''err1 ''), (Stdout, ''out2 '')])
        (ex_invocation, ex_state))) = ''out1 out2 ''
   \<and> stderr_var (fst (on_events
        (data_events [(Stdout, ''out1 ''), (Stderr, ''err1 ''), (Stdout, ''out2 '')])
        (ex_invocation, ex_state))) = ''err1 ''"
  using combined_preserves_arrival_order [OF ex_dollar,
      of "[(Stdout, ''out1 ''), (Stderr, ''err1 ''), (Stdout, ''out2 '')]"]
  by (simp add: chunks_of_def ex_dollar)

text \<open>
  C9. The code of the \<^verbatim>\<open>exit\<close> event is \<^verbatim>\<open>null\<close> when a signal ended the child. Then the
  promise is rejected, \<^verbatim>\<open>null\<close> not being \<^verbatim>\<open>0\<close>, with a \<^verbatim>\<open>ProcessOutput\<close> whose
  \<^verbatim>\<open>exitCode\<close> getter gives \<^verbatim>\<open>null\<close>, not an integer.
\<close>

theorem signal_exit_rejects_with_null:
  assumes "dollar h stack pieces args st = Returned iv st1"
  shows "promise (fst (on_events (data_events ds @ Exit None # later) (iv, st1))) =
       Some (Rejected
         \<lparr>code = None, stdout = concat (chunks_of Stdout ds),
            stderr = concat (chunks_of Stderr ds), combined = concat (map snd ds),
            call_from = from_var iv\<rparr>)
    \<and> fst (member_call Get_exitCode
         \<lparr>code = None, stdout = concat (chunks_of Stdout ds),
            stderr = concat (chunks_of Stderr ds), combined = concat (map snd ds),
            call_from = from_var iv\<rparr>) = JCode None"
proof -
  from assms have init: "stdout_var iv = [] \<and> stderr_var iv = [] \<and> combined_var iv = []
      \<and> promise iv = None"
    by (simp add: dollar_Returned)
  then have "promise iv = None" by simp
  then have "promise (fst (on_events (data_events ds @ Exit None # later) (iv, st1))) =
     Some ((if None = Some (0::int) then Resolved else Rejected)
       \<lparr>code = None, stdout = stdout_var iv @ concat (chunks_of Stdout ds),
          stderr = stderr_var iv @ concat (chunks_of Stderr ds),
          combined = combined_var iv @ concat (map snd ds), call_from = from_var iv\<rparr>)"
    by (rule run_settles)
  with init show ?thesis by simp
qed

theorem signal_exit_rejects_with_null_witness:
  "dollar ex_host ex_stack [''exit 3''] [] (module_init ex_host) = Returned ex_invocation ex_state
   \<and> promise (fst (on_events (data_events [(Stdout, ''a'')] @ Exit None # [])
        (ex_invocation, ex_state))) =
     Some (Rejected \<lparr>code = None, stdout = ''a'', stderr = [], combined = ''a'',
        call_from = ''main (script.mjs:3:1)''\<rparr>)"
  using signal_exit_rejects_with_null [OF ex_dollar, of "[(Stdout, ''a'')]" "[]"]
  by (simp add: chunks_of_def ex_dollar ex_invocation_def)

section \<open>The fields of a \<^verbatim>\<open>ProcessOutput\<close> after construction\<close>











lemma dollar_spawns:
  assumes "dollar h stack pieces args st = Returned iv st1"
  shows "\<exists>c. build_cmd (quote st) pieces args = c
     \<and> trace st1 = trace st @ (case c of None \<Rightarrow> [] | Some cmd \<Rightarrow> echo_of h st cmd)
         @ [Exec (prefix st @ to_string c)
              \<lparr>windowsHide = True, options_shell = shell st, options_cwd = cwd st\<rparr>]"
  using assms
  by (auto simp: dollar_def echo_def executor_def echo_of_def Let_def
      split: option.splits sum.splits if_splits)

section \<open>The load of the module\<close>

text \<open>
  C4. When \<^verbatim>\<open>which.sync('bash')\<close> gives nothing at the load of the module, the quoting
  function stays the identity, so an interpolated value reaches the command as it is; the
  prefix stays empty; and one warning is printed, which says that no quoting is available:
  the one for PowerShell when \<^verbatim>\<open>pwsh\<close> or \<^verbatim>\<open>powershell\<close> was found, the one for an unknown
  shell otherwise.
\<close>

theorem no_bash_means_identity_quote:
  assumes "\<not> truthy (which_sync h ''bash'')"
  shows "quote (module_init h) = (\<lambda>s. s)
    \<and> prefix (module_init h) = []
    \<and> trace (module_init h) =
        [ConsoleWarn
          (if truthy (whichSyncFallback h [''pwsh'', ''powershell''])
           then ''Using powershell: no built-in quoting available yet.''
           else ''Unknown shell. Falling back to nodejs default. No quoting available.'')]
    \<and> build_cmd (quote (module_init h)) [p0, p1] [Raw v] = Some (p0 @ v @ p1)"
proof -
  have q: "quote (module_init h) = (\<lambda>s. s)"
    using assms by (simp add: module_init_def Let_def)
  have "build_cmd (\<lambda>s. s) [p0, p1] [Raw v] = Some (p0 @ v @ p1)"
    by (simp add: build_cmd_interleaving)
  with q show ?thesis
    using assms by (simp add: module_init_def Let_def)
qed

theorem no_bash_means_identity_quote_witness:
  "\<not> truthy (which_sync ex_bare_host ''bash'')
   \<and> quote (module_init ex_bare_host) ''a b; rm -rf $HOME'' = ''a b; rm -rf $HOME''
   \<and> trace (module_init ex_bare_host) =
       [ConsoleWarn ''Unknown shell. Falling back to nodejs default. No quoting available.'']
   \<and> build_cmd (quote (module_init ex_bare_host)) [''echo '', ''''] [Raw ''a b''] =
       Some ''echo a b''"
proof -
  have h: "\<not> truthy (which_sync ex_bare_host ''bash'')"
    by (simp add: ex_bare_host_def truthy_def)
  have f: "\<not> truthy (whichSyncFallback ex_bare_host [''pwsh'', ''powershell''])"
    by (simp add: ex_bare_host_def truthy_def)
  show ?thesis
    using h f no_bash_means_identity_quote [OF h, of "''echo ''" "[]" "''a b''"]
    by (simp add: build_cmd_def build_loop.simps piece_def to_string_def)
qed

text \<open>
  C5. At the load of the module the shell is the first of \<^verbatim>\<open>bash\<close>, \<^verbatim>\<open>pwsh\<close> and
  \<^verbatim>\<open>powershell\<close> that the search finds (\<^verbatim>\<open>undefined\<close> when it finds none; the search
  returns \<^verbatim>\<open>null\<close> for an absent interpreter, and a path it returns is not empty). The
  prefix is \<^verbatim>\<open>set -euo pipefail;\<close> exactly when \<^verbatim>\<open>bash\<close> was found, and empty otherwise.
  Every child \<^verbatim>\<open>$\<close> starts gets the prefix followed by the built command, under the shell
  of the state. No call of \<^verbatim>\<open>$\<close> or \<^verbatim>\<open>cd\<close> and no listener assigns the shell or the
  prefix again.
\<close>

theorem shell_resolved_at_load:
  assumes "which_sync h ''bash'' \<noteq> Some []" and "which_sync h ''pwsh'' \<noteq> Some []"
    and "which_sync h ''powershell'' \<noteq> Some []"
  shows "shell (module_init h) =
       (case which_sync h ''bash'' of
          Some p \<Rightarrow> Some p
        | None \<Rightarrow> (case which_sync h ''pwsh'' of
                     Some p \<Rightarrow> Some p
                   | None \<Rightarrow> which_sync h ''powershell''))
    \<and> prefix (module_init h) =
       (if which_sync h ''bash'' = None then [] else ''set -euo pipefail;'')
    \<and> (dollar h stack pieces args st = Returned iv st1 \<longrightarrow>
         last (trace st1) =
           Exec (prefix st @ to_string (build_cmd (quote st) pieces args))
             \<lparr>windowsHide = True, options_shell = shell st, options_cwd = cwd st\<rparr>)
    \<and> shell (state_of (dollar h stack pieces args st)) = shell st
    \<and> prefix (state_of (dollar h stack pieces args st)) = prefix st
    \<and> shell (state_of (cd h stack path st)) = shell st
    \<and> prefix (state_of (cd h stack path st)) = prefix st
    \<and> shell (snd (on_events es (iv, st))) = shell st
    \<and> prefix (snd (on_events es (iv, st))) = prefix st"
proof -
  have sh: "shell (module_init h) =
       (case which_sync h ''bash'' of
          Some p \<Rightarrow> Some p
        | None \<Rightarrow> (case which_sync h ''pwsh'' of
                     Some p \<Rightarrow> Some p
                   | None \<Rightarrow> which_sync h ''powershell''))"
    using assms by (auto simp: module_init_def Let_def truthy_def split: option.splits)
  have pr: "prefix (module_init h) =
       (if which_sync h ''bash'' = None then [] else ''set -euo pipefail;'')"
    using assms(1) by (auto simp: module_init_def Let_def truthy_def split: option.splits)
  have ex: "dollar h stack pieces args st = Returned iv st1 \<longrightarrow>
         last (trace st1) =
           Exec (prefix st @ to_string (build_cmd (quote st) pieces args))
             \<lparr>windowsHide = True, options_shell = shell st, options_cwd = cwd st\<rparr>"
    using dollar_spawns [of h stack pieces args st iv st1] by auto
  have ev: "shell (snd (on_events es (iv, st))) = shell st
      \<and> prefix (snd (on_events es (iv, st))) = prefix st"
    using on_events_fields [of es "(iv, st)"] by simp
  show ?thesis
    using sh pr ex ev dollar_fields [of h stack pieces args st] cd_fields [of h stack path st]
    by blast
qed

theorem shell_resolved_at_load_witness:
  "which_sync ex_host ''bash'' \<noteq> Some [] \<and> which_sync ex_host ''pwsh'' \<noteq> Some []
   \<and> which_sync ex_host ''powershell'' \<noteq> Some []
   \<and> shell (module_init ex_host) = Some ''/bin/bash''
   \<and> prefix (module_init ex_host) = ''set -euo pipefail;''
   \<and> dollar ex_host ex_stack [''exit 3''] [] (module_init ex_host) = Returned ex_invocation ex_state
   \<and> last (trace ex_state) =
       Exec ''set -euo pipefail;exit 3''
         \<lparr>windowsHide = True, options_shell = Some ''/bin/bash'', options_cwd = None\<rparr>"
proof -
  have a: "which_sync ex_host ''bash'' \<noteq> Some []" and b: "which_sync ex_host ''pwsh'' \<noteq> Some []"
    and c: "which_sync ex_host ''powershell'' \<noteq> Some []"
    by (simp_all add: ex_host_def)
  have w: "which_sync ex_host ''bash'' = Some ''/bin/bash''"
    by (simp add: ex_host_def)
  note t = shell_resolved_at_load [OF a b c, of ex_stack "[''exit 3'']" "[]"
      "module_init ex_host" ex_invocation ex_state]
  from t have s: "shell (module_init ex_host) = Some ''/bin/bash''"
    and p: "prefix (module_init ex_host) = ''set -euo pipefail;''"
    by (simp_all add: w)
  from t ex_dollar have "last (trace ex_state) =
      Exec (prefix (module_init ex_host)
          @ to_string (build_cmd (quote (module_init ex_host)) [''exit 3''] []))
        \<lparr>windowsHide = True, options_shell = shell (module_init ex_host),
           options_cwd = cwd (module_init ex_host)\<rparr>"
    by blast
  then have l: "last (trace ex_state) =
       Exec ''set -euo pipefail;exit 3''
         \<lparr>windowsHide = True, options_shell = Some ''/bin/bash'', options_cwd = None\<rparr>"
    by (simp add: ex_module_init build_cmd_def build_loop.simps piece_def to_string_def)
  from a b c s p l ex_dollar show ?thesis
    by blast
qed

section \<open>The directory change\<close>

text \<open>
  For a path that does not exist, called from a place the stack text names, \<^verbatim>\<open>cd\<close>
  prints the path and then the call site on the error stream and ends the process with
  status 1: it does not return, and whatever statement follows it does not run. For a path
  that exists, \<^verbatim>\<open>cd\<close> returns with the path as the working directory of the state, and a
  child that \<^verbatim>\<open>$\<close> starts afterwards gets that path as its \<^verbatim>\<open>cwd\<close> option.
\<close>

lemma cd_with_call_site:
  "(\<not> existsSync h path \<and> call_site stack = Some fr \<longrightarrow>
      cd h stack path st =
        Exited 1
          (st\<lparr>trace := trace st @ echo_of h st (''cd '' @ path) @
             [ConsoleError (''cd: '' @ path @ '': No such directory''),
              ConsoleError (''  at '' @ fr)]\<rparr>)
      \<and> and_then (cd h stack path st) k =
        Exited 1
          (st\<lparr>trace := trace st @ echo_of h st (''cd '' @ path) @
             [ConsoleError (''cd: '' @ path @ '': No such directory''),
              ConsoleError (''  at '' @ fr)]\<rparr>))
   \<and> (existsSync h path \<longrightarrow>
      cd h stack path st =
        Returned () (st\<lparr>cwd := Some path, trace := trace st @ echo_of h st (''cd '' @ path)\<rparr>)
      \<and> (dollar h stack2 pieces args (state_of (cd h stack path st)) = Returned iv st2 \<longrightarrow>
           last (trace st2) =
             Exec (prefix st @ to_string (build_cmd (quote st) pieces args))
               \<lparr>windowsHide = True, options_shell = shell st, options_cwd = Some path\<rparr>))"
proof -
  have miss: "cd h stack path st =
        Exited 1
          (st\<lparr>trace := trace st @ echo_of h st (''cd '' @ path) @
             [ConsoleError (''cd: '' @ path @ '': No such directory''),
              ConsoleError (''  at '' @ fr)]\<rparr>)"
    if "\<not> existsSync h path" and "call_site stack = Some fr"
    using that by (simp add: cd_def echo_of_def)
  have hit: "cd h stack path st =
        Returned () (st\<lparr>cwd := Some path, trace := trace st @ echo_of h st (''cd '' @ path)\<rparr>)"
    if "existsSync h path"
    using that by (simp add: cd_def echo_of_def)
  have spawn: "last (trace st2) =
             Exec (prefix st @ to_string (build_cmd (quote st) pieces args))
               \<lparr>windowsHide = True, options_shell = shell st, options_cwd = Some path\<rparr>"
    if "existsSync h path"
      and "dollar h stack2 pieces args (state_of (cd h stack path st)) = Returned iv st2"
    using dollar_spawns [OF that(2)] by (auto simp: hit [OF that(1)])
  show ?thesis
    using miss hit spawn by auto
qed


lemma cd_with_call_site_example:
  "\<not> existsSync ex_host ''/nope'' \<and> call_site ex_stack = Some ''main (script.mjs:3:1)''
   \<and> cd ex_host ex_stack ''/nope'' (module_init ex_host) =
       Exited 1 ((module_init ex_host)\<lparr>trace :=
         [ConsoleLog ''$ cd /nope'', ConsoleError ''cd: /nope: No such directory'',
          ConsoleError ''  at main (script.mjs:3:1)'']\<rparr>)
   \<and> and_then (cd ex_host ex_stack ''/nope'' (module_init ex_host))
        (\<lambda>u. dollar ex_host ex_stack [''exit 3''] []) =
       Exited 1 ((module_init ex_host)\<lparr>trace :=
         [ConsoleLog ''$ cd /nope'', ConsoleError ''cd: /nope: No such directory'',
          ConsoleError ''  at main (script.mjs:3:1)'']\<rparr>)
   \<and> existsSync ex_host ''/tmp''
   \<and> cd ex_host ex_stack ''/tmp'' (module_init ex_host) =
       Returned () ((module_init ex_host)\<lparr>cwd := Some ''/tmp'',
         trace := [ConsoleLog ''$ cd /tmp'']\<rparr>)"
proof -
  have n: "\<not> existsSync ex_host ''/nope''" and y: "existsSync ex_host ''/tmp''"
    by (simp_all add: ex_host_def)
  have e: "echo_of ex_host (module_init ex_host) ''cd /nope'' = [ConsoleLog ''$ cd /nope'']"
    "echo_of ex_host (module_init ex_host) ''cd /tmp'' = [ConsoleLog ''$ cd /tmp'']"
    by (simp_all add: echo_of_def ex_module_init colorize_def is_word_def is_space_def)
      (simp_all add: ex_host_def)
  have t: "trace (module_init ex_host) = []"
    by (simp add: ex_module_init)
  show ?thesis
    using n y ex_call_site e t
      cd_with_call_site [of ex_host "''/nope''" ex_stack "''main (script.mjs:3:1)''"
        "module_init ex_host" "\<lambda>u. dollar ex_host ex_stack [''exit 3''] []"]
      cd_with_call_site [of ex_host "''/tmp''" ex_stack "''main (script.mjs:3:1)''"
        "module_init ex_host"]
    by simp
qed

text \<open>A child started after the change of directory gets the new directory.\<close>

lemma cd_then_dollar_example:
  "and_then (cd ex_host ex_stack ''/tmp'' (module_init ex_host))
     (\<lambda>u. dollar ex_host ex_stack [''exit 3''] []) =
   Returned ex_invocation
     ((module_init ex_host)\<lparr>cwd := Some ''/tmp'', trace :=
        [ConsoleLog ''$ cd /tmp'', ConsoleLog ''$ exit 3'',
         Exec ''set -euo pipefail;exit 3''
           \<lparr>windowsHide = True, options_shell = Some ''/bin/bash'',
              options_cwd = Some ''/tmp''\<rparr>]\<rparr>)"
proof -
  have y: "existsSync ex_host ''/tmp''"
    by (simp add: ex_host_def)
  have e: "colorize ex_host ''cd /tmp'' = ''cd /tmp''"
    "colorize ex_host ''exit 3'' = ''exit 3''"
    by (simp_all add: colorize_def is_word_def is_space_def ex_host_def)
  show ?thesis
    by (simp add: cd_def dollar_def y e ex_call_site build_cmd_def build_loop.simps piece_def
        echo_def executor_def to_string_def ex_module_init ex_invocation_def Let_def)
qed

text \<open>
  C6. For a path that does not exist \<^verbatim>\<open>cd\<close> is to print the path and the call site on the
  error stream and to end the process, on every call. The call site is computed first in
  that branch (line 100), as the third piece of the stack text between \<^verbatim>\<open>at \<close>. The stack
  text \<^verbatim>\<open>Error\<close>, which has no frame (\<^verbatim>\<open>Error.stackTraceLimit = 0\<close>), has one piece:
  there \<^verbatim>\<open>cd\<close> throws a TypeError instead. After the echo of the command nothing is
  printed, neither the path nor a call site, and the process is not ended.
\<close>

theorem cd_throws_without_call_site:
  "call_site ''Error'' = None
   \<and> \<not> existsSync ex_host ''/nope''
   \<and> cd ex_host ''Error'' ''/nope'' (module_init ex_host) =
       Threw TypeError ((module_init ex_host)\<lparr>trace := [ConsoleLog ''$ cd /nope'']\<rparr>)"
proof -
  have c: "call_site ''Error'' = None"
    by (simp add: call_site_def)
  have n: "\<not> existsSync ex_host ''/nope''"
    by (simp add: ex_host_def)
  have e: "colorize ex_host ''cd /nope'' = ''cd /nope''"
    by (simp add: colorize_def is_word_def is_space_def ex_host_def)
  show ?thesis
    by (simp add: cd_def c n e ex_module_init Let_def)
qed

section \<open>The verbosity flag\<close>

text \<open>
  C10. The flag is true when the module is loaded. While it is true, a call of \<^verbatim>\<open>$\<close> that
  starts a child prints the built command on the console first and starts the child after
  that, and each chunk is written to the stream of the parent it came on, in arrival order.
  No call of \<^verbatim>\<open>$\<close> or \<^verbatim>\<open>cd\<close> and no listener changes the flag. While it is false, nothing
  is printed for a command or a chunk.
\<close>

theorem verbose_by_default:
  "verbose (module_init h)
   \<and> (verbose st \<and> dollar h stack pieces args st = Returned iv st1 \<longrightarrow>
        (\<exists>cmd. build_cmd (quote st) pieces args = Some cmd
           \<and> trace st1 = trace st @
               [ConsoleLog (''$ '' @ colorize h cmd),
                Exec (prefix st @ cmd)
                  \<lparr>windowsHide = True, options_shell = shell st, options_cwd = cwd st\<rparr>]))
   \<and> (verbose st \<longrightarrow>
        trace (snd (on_events (data_events ds) (iv, st))) = trace st @ map mirror ds)
   \<and> verbose (state_of (dollar h stack pieces args st)) = verbose st
   \<and> verbose (state_of (cd h stack path st)) = verbose st
   \<and> verbose (snd (on_events es (iv, st))) = verbose st
   \<and> (\<not> verbose st \<longrightarrow>
        trace (snd (on_events (data_events ds) (iv, st))) = trace st
        \<and> (dollar h stack pieces args st = Returned iv st1 \<longrightarrow>
             trace st1 = trace st @
               [Exec (prefix st @ to_string (build_cmd (quote st) pieces args))
                  \<lparr>windowsHide = True, options_shell = shell st, options_cwd = cwd st\<rparr>]))"
proof -
  have load: "verbose (module_init h)"
    by (simp add: module_init_def Let_def)
  have on: "\<exists>cmd. build_cmd (quote st) pieces args = Some cmd
           \<and> trace st1 = trace st @
               [ConsoleLog (''$ '' @ colorize h cmd),
                Exec (prefix st @ cmd)
                  \<lparr>windowsHide = True, options_shell = shell st, options_cwd = cwd st\<rparr>]"
    if "verbose st" and "dollar h stack pieces args st = Returned iv st1"
    using that
    by (auto simp: dollar_def echo_def executor_def to_string_def Let_def
        split: option.splits sum.splits if_splits)
  have off: "trace st1 = trace st @
               [Exec (prefix st @ to_string (build_cmd (quote st) pieces args))
                  \<lparr>windowsHide = True, options_shell = shell st, options_cwd = cwd st\<rparr>]"
    if "\<not> verbose st" and "dollar h stack pieces args st = Returned iv st1"
    using that
    by (auto simp: dollar_def echo_def executor_def Let_def
        split: option.splits sum.splits if_splits)
  have chunks: "trace (snd (on_events (data_events ds) (iv, st))) =
      trace st @ (if verbose st then map mirror ds else [])"
    by (simp add: on_events_data)
  have keep: "verbose (snd (on_events es (iv, st))) = verbose st"
    using on_events_fields [of es "(iv, st)"] by simp
  show ?thesis
    using load on off chunks keep dollar_fields [of h stack pieces args st]
      cd_fields [of h stack path st]
    by auto
qed

theorem verbose_by_default_witness:
  "verbose (module_init ex_host)
   \<and> dollar ex_host ex_stack [''exit 3''] [] (module_init ex_host) = Returned ex_invocation ex_state
   \<and> trace ex_state =
       [ConsoleLog ''$ exit 3'',
        Exec ''set -euo pipefail;exit 3''
          \<lparr>windowsHide = True, options_shell = Some ''/bin/bash'', options_cwd = None\<rparr>]
   \<and> trace (snd (on_events (data_events [(Stdout, ''a''), (Stderr, ''b'')])
        (ex_invocation, ex_state))) =
       [ConsoleLog ''$ exit 3'',
        Exec ''set -euo pipefail;exit 3''
          \<lparr>windowsHide = True, options_shell = Some ''/bin/bash'', options_cwd = None\<rparr>,
        StdoutWrite ''a'', StderrWrite ''b'']
   \<and> trace (snd (on_events (data_events [(Stdout, ''a''), (Stderr, ''b'')])
        (ex_invocation, ex_state\<lparr>verbose := False\<rparr>))) = trace ex_state"
proof -
  have v: "verbose ex_state" and nv: "\<not> verbose (ex_state\<lparr>verbose := False\<rparr>)"
    and t: "trace ex_state =
       [ConsoleLog ''$ exit 3'',
        Exec ''set -euo pipefail;exit 3''
          \<lparr>windowsHide = True, options_shell = Some ''/bin/bash'', options_cwd = None\<rparr>]"
    by (simp_all add: ex_state_def ex_module_init)
  show ?thesis
    using v nv t ex_dollar
      verbose_by_default [of ex_host "module_init ex_host" ex_stack "[''exit 3'']" "[]"
        ex_invocation ex_state]
      verbose_by_default [of ex_host ex_state ex_stack "[''exit 3'']" "[]" ex_invocation
        ex_state "[(Stdout, ''a''), (Stderr, ''b'')]"]
      verbose_by_default [of ex_host "ex_state\<lparr>verbose := False\<rparr>" ex_stack "[''exit 3'']"
        "[]" ex_invocation ex_state "[(Stdout, ''a''), (Stderr, ''b'')]"]
    by simp
qed

end
